theory Spec2Isabelle
  imports Complex_Main "HOL-Library.Multiset"
begin

section \<open>The Python part of randomizer5.py\<close>

text \<open>
  The script parses \<^verbatim>\<open>poly.cfg\<close>, rescales fractional coordinates, assigns one of
  five species to every atom along a shuffled index list and writes a LAMMPS data file.
  The model follows the script from line 63 on, statement by statement. The three
  Atomsk invocations before it are external processes and are not modelled, nor are the
  \<^verbatim>\<open>print\<close> calls, which only write progress messages to standard output.

  What Python provides and the script only calls is taken as a parameter:
  \<^item> the float primitives (\<^verbatim>\<open>float(s)\<close>, \<^verbatim>\<open><\<close>, \<^verbatim>\<open>-\<close>, \<^verbatim>\<open>*\<close>, the conversion of a small
    integer literal, and \<^verbatim>\<open>format(v, '.6f')\<close>) are the fields of a record of
    operations over an arbitrary carrier type, so nothing is assumed about rounding,
    infinities or NaN;
  \<^item> \<^verbatim>\<open>random.shuffle\<close> is a function of the generator state and the list.
  Strings are lists of characters read as code points below 256.
\<close>

subsection \<open>Data model\<close>

record 'f float_ops =
  float_of :: "string \<Rightarrow> 'f option"   \<comment> \<open>\<^verbatim>\<open>float(s)\<close>; \<open>None\<close> is ValueError\<close>
  flt :: "'f \<Rightarrow> 'f \<Rightarrow> bool"            \<comment> \<open>\<^verbatim>\<open>a < b\<close>\<close>
  fsub :: "'f \<Rightarrow> 'f \<Rightarrow> 'f"             \<comment> \<open>\<^verbatim>\<open>a - b\<close>\<close>
  fmul :: "'f \<Rightarrow> 'f \<Rightarrow> 'f"             \<comment> \<open>\<^verbatim>\<open>a * b\<close>\<close>
  fnum :: "nat \<Rightarrow> 'f"                  \<comment> \<open>the float of a small literal: 0.0, 2, 198.0\<close>
  fmt6 :: "'f \<Rightarrow> string"               \<comment> \<open>\<^verbatim>\<open>f"{v:.6f}"\<close>\<close>

text \<open>One entry of the list \<^verbatim>\<open>atoms\<close>: the dict with keys x, y, z, grain, type.\<close>

record 'f atom =
  atom_x :: 'f
  atom_y :: 'f
  atom_z :: 'f
  grain :: string
  atom_type :: nat

text \<open>How the process can end other than by running to its last line.\<close>

datatype py_exit =
  SystemExit string   \<comment> \<open>\<^verbatim>\<open>sys.exit(msg)\<close>: the message goes to stderr, the status is 1\<close>
| ValueError          \<comment> \<open>\<^verbatim>\<open>max\<close> or \<^verbatim>\<open>min\<close> of an empty list\<close>
| IndexError          \<comment> \<open>\<^verbatim>\<open>atoms[idx]\<close> out of range\<close>

fun exit_status :: "py_exit option \<Rightarrow> nat" where
  "exit_status None = 0"
| "exit_status (Some e) = 1"

text \<open>The files of the working directory: name to content.\<close>

type_synonym files = "string \<rightharpoonup> string"

definition output_file :: string where
  "output_file = ''final_lammps.data''"

subsection \<open>String primitives: strip, split, in, str\<close>

text \<open>
  \<^verbatim>\<open>str.isspace\<close> on code points below 256: tab, LF, VT, FF, CR, the four separators
  0x1C to 0x1F, space, NEL (0x85) and the no-break space (0xA0).
\<close>

definition isspace :: "char \<Rightarrow> bool" where
  "isspace c = (of_char c \<in> set [9, 10, 11, 12, 13, 28, 29, 30, 31, 32, 133, 160 :: nat])"

definition strip :: "string \<Rightarrow> string" where
  "strip s = rev (dropWhile isspace (rev (dropWhile isspace s)))"

text \<open>
  \<^verbatim>\<open>s.split()\<close>: one left-to-right scan; \<open>w\<close> is the field being read, reversed.
  Runs of whitespace separate fields and produce no empty field.
\<close>

fun split_scan :: "string \<Rightarrow> string \<Rightarrow> string list" where
  "split_scan w [] = (if w = [] then [] else [rev w])"
| "split_scan w (c # cs) =
     (if isspace c then (if w = [] then split_scan [] cs else rev w # split_scan [] cs)
      else split_scan (c # w) cs)"

definition split :: "string \<Rightarrow> string list" where
  "split s = split_scan [] s"

fun startswith :: "string \<Rightarrow> string \<Rightarrow> bool" where
  "startswith s [] = True"
| "startswith [] (p # ps) = False"
| "startswith (c # cs) (p # ps) = (c = p \<and> startswith cs ps)"

text \<open>\<^verbatim>\<open>sub in s\<close>\<close>

fun contains :: "string \<Rightarrow> string \<Rightarrow> bool" where
  "contains sub [] = (sub = [])"
| "contains sub (c # cs) = (startswith (c # cs) sub \<or> contains sub cs)"

definition digit_char :: "nat \<Rightarrow> char" where
  "digit_char d = ''0123456789'' ! d"

text \<open>\<^verbatim>\<open>str(n)\<close> of a non-negative int.\<close>

fun str_nat :: "nat \<Rightarrow> string" where
  "str_nat n = (if n < 10 then [digit_char n] else str_nat (n div 10) @ [digit_char (n mod 10)])"

declare str_nat.simps [simp del]

subsection \<open>Lines 71 to 82: header and atom body\<close>

text \<open>
  The loop over \<^verbatim>\<open>lines\<close>, with its three variables \<^verbatim>\<open>found_fe_line\<close>,
  \<^verbatim>\<open>header_part\<close> and \<^verbatim>\<open>atom_part\<close> as the state.
\<close>

fun header_loop :: "bool \<Rightarrow> string list \<Rightarrow> string list \<Rightarrow> string list
    \<Rightarrow> string list \<times> string list" where
  "header_loop found_fe_line header_part atom_part [] = (header_part, atom_part)"
| "header_loop found_fe_line header_part atom_part (line # rest) =
     (if \<not> found_fe_line
      then header_loop (contains ''Fe'' (strip line)) (header_part @ [line]) atom_part rest
      else header_loop found_fe_line header_part (atom_part @ [line]) rest)"

definition split_header :: "string list \<Rightarrow> string list \<times> string list" where
  "split_header lines = header_loop False [] [] lines"

subsection \<open>Lines 88 to 109: atom lines\<close>

text \<open>The body of the loop for one line: \<open>None\<close> is a \<^verbatim>\<open>continue\<close>.\<close>

definition parse_line :: "'f float_ops \<Rightarrow> string \<Rightarrow> 'f atom option" where
  "parse_line ops line =
     (let stripped = strip line in
      if stripped = [] then None
      else let parts = split stripped in
        if length parts < 4 then None
        else case float_of ops (parts ! 0) of
          None \<Rightarrow> None
        | Some x \<Rightarrow> (case float_of ops (parts ! 1) of
            None \<Rightarrow> None
          | Some y \<Rightarrow> (case float_of ops (parts ! 2) of
              None \<Rightarrow> None
            | Some z \<Rightarrow>
                Some \<lparr>atom_x = x, atom_y = y, atom_z = z, grain = parts ! 3, atom_type = 0\<rparr>)))"

fun parse_loop :: "'f float_ops \<Rightarrow> 'f atom list \<Rightarrow> string list \<Rightarrow> 'f atom list" where
  "parse_loop ops atoms [] = atoms"
| "parse_loop ops atoms (line # rest) =
     (case parse_line ops line of
        None \<Rightarrow> parse_loop ops atoms rest
      | Some a \<Rightarrow> parse_loop ops (atoms @ [a]) rest)"

definition parse_atoms :: "'f float_ops \<Rightarrow> string list \<Rightarrow> 'f atom list" where
  "parse_atoms ops atom_part = parse_loop ops [] atom_part"

subsection \<open>Lines 117 to 135: coordinate ranges and scaling\<close>

text \<open>
  The builtins \<^verbatim>\<open>max\<close> and \<^verbatim>\<open>min\<close> keep the first item and replace it by a later
  one that compares greater (less); on an empty list they raise ValueError.
\<close>

fun py_max :: "'f float_ops \<Rightarrow> 'f list \<Rightarrow> 'f option" where
  "py_max ops [] = None"
| "py_max ops (v # vs) = Some (foldl (\<lambda>m item. if flt ops m item then item else m) v vs)"

fun py_min :: "'f float_ops \<Rightarrow> 'f list \<Rightarrow> 'f option" where
  "py_min ops [] = None"
| "py_min ops (v # vs) = Some (foldl (\<lambda>m item. if flt ops item m then item else m) v vs)"

definition axis_range :: "'f float_ops \<Rightarrow> 'f list \<Rightarrow> 'f option" where
  "axis_range ops vs =
     (case py_max ops vs of
        None \<Rightarrow> None
      | Some hi \<Rightarrow> (case py_min ops vs of None \<Rightarrow> None | Some lo \<Rightarrow> Some (fsub ops hi lo)))"

definition scale_factor :: "'f float_ops \<Rightarrow> 'f" where
  "scale_factor ops = fnum ops 198"

definition scale_atom :: "'f float_ops \<Rightarrow> 'f atom \<Rightarrow> 'f atom" where
  "scale_atom ops a =
     a\<lparr>atom_x := fmul ops (atom_x a) (scale_factor ops),
       atom_y := fmul ops (atom_y a) (scale_factor ops),
       atom_z := fmul ops (atom_z a) (scale_factor ops)\<rparr>"

definition is_fractional :: "'f float_ops \<Rightarrow> 'f \<Rightarrow> 'f \<Rightarrow> 'f \<Rightarrow> bool" where
  "is_fractional ops x_range y_range z_range =
     (flt ops x_range (fnum ops 2) \<and> flt ops y_range (fnum ops 2) \<and> flt ops z_range (fnum ops 2))"

definition normalize :: "'f float_ops \<Rightarrow> 'f atom list \<Rightarrow> py_exit + 'f atom list" where
  "normalize ops atoms =
     (case axis_range ops (map atom_x atoms) of
        None \<Rightarrow> Inl ValueError
      | Some x_range \<Rightarrow> (case axis_range ops (map atom_y atoms) of
          None \<Rightarrow> Inl ValueError
        | Some y_range \<Rightarrow> (case axis_range ops (map atom_z atoms) of
            None \<Rightarrow> Inl ValueError
          | Some z_range \<Rightarrow>
              if is_fractional ops x_range y_range z_range
              then Inr (map (scale_atom ops) atoms)
              else Inr atoms)))"

subsection \<open>Lines 137 to 166: species assignment\<close>

text \<open>
  \<^verbatim>\<open>round\<close> rounds to the nearest integer and a tie to the even one. The product
  \<^verbatim>\<open>0.2 * n_atoms\<close> is taken as the exact rational n/5: the double nearest to 0.2
  exceeds 1/5 by 1/(5 * 2^54), so for every n below 2^48 (more atoms than a list can
  hold) the float product is within 1/100 of n/5, while n/5 stays at least 1/10 away
  from every tie. Both round to the same integer.
\<close>

definition py_round :: "rat \<Rightarrow> int" where
  "py_round r =
     (let f = \<lfloor>r\<rfloor>; d = r - of_int f in
      if d < 1 / 2 then f
      else if 1 / 2 < d then f + 1
      else if even f then f else f + 1)"

definition quota :: "nat \<Rightarrow> nat" where
  "quota n_atoms = nat (py_round (2 / 10 * of_nat n_atoms))"

text \<open>\<^verbatim>\<open>xs[a:b]\<close> and \<^verbatim>\<open>xs[a:]\<close> for non-negative bounds: a slice clips at the end of the list.\<close>

definition slice :: "nat \<Rightarrow> nat \<Rightarrow> 'a list \<Rightarrow> 'a list" where
  "slice a b xs = take (b - a) (drop a xs)"

definition slice_from :: "nat \<Rightarrow> 'a list \<Rightarrow> 'a list" where
  "slice_from a xs = drop a xs"

text \<open>One loop \<^verbatim>\<open>for idx in indices: atoms[idx]['type'] = t\<close>.\<close>

fun set_types :: "nat list \<Rightarrow> nat \<Rightarrow> 'f atom list \<Rightarrow> py_exit + 'f atom list" where
  "set_types [] t atoms = Inr atoms"
| "set_types (idx # rest) t atoms =
     (if idx < length atoms
      then set_types rest t (atoms[idx := (atoms ! idx)\<lparr>atom_type := t\<rparr>])
      else Inl IndexError)"

fun bind_exit :: "py_exit + 'a \<Rightarrow> ('a \<Rightarrow> py_exit + 'b) \<Rightarrow> py_exit + 'b" where
  "bind_exit (Inl e) k = Inl e"
| "bind_exit (Inr v) k = k v"

text \<open>
  \<open>fe_indices\<close> is the list after \<^verbatim>\<open>random.shuffle\<close>; \<open>n_atoms\<close> is \<^verbatim>\<open>len(atoms)\<close>.
\<close>

definition assign_species :: "nat list \<Rightarrow> 'f atom list \<Rightarrow> py_exit + 'f atom list" where
  "assign_species fe_indices atoms =
     (let n_atoms = length atoms;
          n1 = quota n_atoms; n2 = quota n_atoms; n3 = quota n_atoms; n4 = quota n_atoms;
          i0 = 0; i1 = n1; i2 = i1 + n2; i3 = i2 + n3; i4 = i3 + n4;
          V_indices = slice i0 i1 fe_indices;
          Nb_indices = slice i1 i2 fe_indices;
          Ta_indices = slice i2 i3 fe_indices;
          Ti_indices = slice i3 i4 fe_indices;
          Zr_indices = slice_from i4 fe_indices
      in bind_exit (set_types V_indices 1 atoms) (\<lambda>atoms.
         bind_exit (set_types Nb_indices 2 atoms) (\<lambda>atoms.
         bind_exit (set_types Ta_indices 3 atoms) (\<lambda>atoms.
         bind_exit (set_types Ti_indices 4 atoms) (\<lambda>atoms.
         set_types Zr_indices 5 atoms)))))"

subsection \<open>Lines 170 to 201: the data file\<close>

text \<open>
  \<^verbatim>\<open>mass_dict\<close>; each mass is kept as the text that formatting the float literal
  gives, which for these literals is the literal itself.
\<close>

definition mass_dict :: "(nat \<times> string) list" where
  "mass_dict =
     [(1, ''50.9415''), (2, ''92.90638''), (3, ''180.94788''), (4, ''47.867''), (5, ''91.224'')]"

definition newline :: string where
  "newline = [CHR 0x0A]"

definition mass_lines :: string where
  "mass_lines = concat (map (\<lambda>(t, m). str_nat t @ '' '' @ m @ newline) mass_dict)"

definition atom_line :: "'f float_ops \<Rightarrow> nat \<Rightarrow> 'f atom \<Rightarrow> string" where
  "atom_line ops i a =
     str_nat i @ '' '' @ str_nat (atom_type a) @ '' '' @ fmt6 ops (atom_x a) @ '' ''
       @ fmt6 ops (atom_y a) @ '' '' @ fmt6 ops (atom_z a) @ newline"

text \<open>\<^verbatim>\<open>for i, atom in enumerate(atoms, start=1)\<close>, with \<open>i\<close> the running counter.\<close>

fun write_atoms :: "'f float_ops \<Rightarrow> nat \<Rightarrow> 'f atom list \<Rightarrow> string list" where
  "write_atoms ops i [] = []"
| "write_atoms ops i (a # rest) = atom_line ops i a # write_atoms ops (Suc i) rest"

definition count_line :: "nat \<Rightarrow> string" where
  "count_line n_atoms = str_nat n_atoms @ '' atoms'' @ newline"

definition box_line :: "'f float_ops \<Rightarrow> string \<Rightarrow> string" where
  "box_line ops axis =
     fmt6 ops (fnum ops 0) @ '' '' @ fmt6 ops (fnum ops 198) @ '' '' @ axis @ ''lo '' @ axis
       @ ''hi'' @ newline"

text \<open>Everything written before the atom lines, in the order of the \<^verbatim>\<open>f.write\<close> calls.\<close>

definition preamble :: "'f float_ops \<Rightarrow> nat \<Rightarrow> string list" where
  "preamble ops n_atoms =
     [''LAMMPS data file generated by automated_pipeline.py'' @ newline @ newline,
      count_line n_atoms,
      ''5 atom types'' @ newline @ newline,
      box_line ops ''x'',
      box_line ops ''y'',
      box_line ops ''z'' @ newline,
      ''Masses'' @ newline @ newline,
      mass_lines,
      newline @ ''Atoms'' @ newline @ newline]"

definition write_data :: "'f float_ops \<Rightarrow> 'f atom list \<Rightarrow> string" where
  "write_data ops atoms = concat (preamble ops (length atoms) @ write_atoms ops 1 atoms)"

subsection \<open>The whole Python part\<close>

definition no_atoms_message :: string where
  "no_atoms_message = ''[ERROR] No atoms parsed. Exiting.''"

text \<open>
  \<open>lines\<close> is what \<^verbatim>\<open>f.readlines()\<close> returned for \<^verbatim>\<open>poly.cfg\<close>, \<open>g\<close> the state of
  the generator when \<^verbatim>\<open>random.shuffle\<close> is called, \<open>fs\<close> the files before the run.
  The result is how the process ended (\<open>None\<close>: it ran to its last line) and the files
  after the run.
\<close>

definition python_part ::
    "'f float_ops \<Rightarrow> ('g \<Rightarrow> nat list \<Rightarrow> nat list) \<Rightarrow> 'g \<Rightarrow> string list \<Rightarrow> files
      \<Rightarrow> py_exit option \<times> files" where
  "python_part ops shuffle g lines fs =
     (let (header_part, atom_part) = split_header lines;
          atoms = parse_atoms ops atom_part;
          n_atoms = length atoms
      in if n_atoms = 0 then (Some (SystemExit no_atoms_message), fs)
         else case bind_exit (normalize ops atoms)
                     (assign_species (shuffle g [0..<n_atoms])) of
           Inl e \<Rightarrow> (Some e, fs)
         | Inr atoms' \<Rightarrow> (None, fs(output_file \<mapsto> write_data ops atoms')))"

subsection \<open>The claims' own words\<close>

text \<open>
  The atom-body lines the parser's description calls malformed: fewer than four
  whitespace-separated fields, or one of the first three fields is not a float.
\<close>

definition malformed :: "'f float_ops \<Rightarrow> string \<Rightarrow> bool" where
  "malformed ops line =
     (length (split line) < 4 \<or> float_of ops (split line ! 0) = None
      \<or> float_of ops (split line ! 1) = None \<or> float_of ops (split line ! 2) = None)"

text \<open>The record of a well-formed line: its first three fields as floats, the fourth kept.\<close>

definition record_of :: "'f float_ops \<Rightarrow> string \<Rightarrow> 'f atom" where
  "record_of ops line =
     \<lparr>atom_x = the (float_of ops (split line ! 0)),
      atom_y = the (float_of ops (split line ! 1)),
      atom_z = the (float_of ops (split line ! 2)),
      grain = split line ! 3,
      atom_type = 0\<rparr>"

text \<open>
  The species of the atom whose index stands at position \<open>j\<close> of the shuffled list, for
  group size \<open>q\<close>: the first four blocks of \<open>q\<close> positions are species 1 to 4, every
  later position is species 5.
\<close>

definition species_at :: "nat \<Rightarrow> nat \<Rightarrow> nat" where
  "species_at q j =
     (if j < q then 1 else if j < 2 * q then 2 else if j < 3 * q then 3
      else if j < 4 * q then 4 else 5)"

text \<open>How many atoms carry species \<open>t\<close>.\<close>

definition species_count :: "nat \<Rightarrow> 'f atom list \<Rightarrow> nat" where
  "species_count t atoms = length (filter (\<lambda>a. atom_type a = t) atoms)"

subsection \<open>An instance for running the model\<close>

text \<open>
  Exact rational arithmetic on plain decimal literals (an optional sign, digits, an
  optional point and digits), printed with six decimals. It runs the model on concrete
  inputs; no theorem about the script depends on it.
\<close>

definition is_digit :: "char \<Rightarrow> bool" where
  "is_digit c = (48 \<le> (of_char c :: nat) \<and> (of_char c :: nat) \<le> 57)"

definition digits_val :: "string \<Rightarrow> nat" where
  "digits_val ds = foldl (\<lambda>v c. 10 * v + (of_char c - 48)) 0 ds"

definition unsigned_decimal :: "string \<Rightarrow> rat option" where
  "unsigned_decimal s =
     (let ip = takeWhile is_digit s; rest = dropWhile is_digit s in
      case rest of
        [] \<Rightarrow> if ip = [] then None else Some (of_nat (digits_val ip))
      | c # fp \<Rightarrow>
          if c = CHR ''.'' \<and> list_all is_digit fp \<and> (ip \<noteq> [] \<or> fp \<noteq> [])
          then Some (of_nat (digits_val ip) + of_nat (digits_val fp) / 10 ^ length fp)
          else None)"

definition decimal_of :: "string \<Rightarrow> rat option" where
  "decimal_of s =
     (case s of
        [] \<Rightarrow> None
      | c # r \<Rightarrow>
          if c = CHR ''-'' then map_option uminus (unsigned_decimal r)
          else if c = CHR ''+'' then unsigned_decimal r
          else unsigned_decimal s)"

definition pad6 :: "nat \<Rightarrow> string" where
  "pad6 k = (let ds = str_nat k in drop (length ds) ''000000'' @ ds)"

definition fixed6_of_micro :: "int \<Rightarrow> string" where
  "fixed6_of_micro m =
     (let a = nat \<bar>m\<bar> in
      (if m < 0 then ''-'' else []) @ str_nat (a div 1000000) @ ''.'' @ pad6 (a mod 1000000))"

definition fixed6 :: "rat \<Rightarrow> string" where
  "fixed6 r = fixed6_of_micro (py_round (r * 1000000))"

definition exact_ops :: "rat float_ops" where
  "exact_ops =
     \<lparr>float_of = decimal_of, flt = (<), fsub = (-), fmul = (*), fnum = of_nat, fmt6 = fixed6\<rparr>"

text \<open>A stand-in for the shuffle: the state \<open>g\<close> rotates the reversed list.\<close>

definition rotate_shuffle :: "nat \<Rightarrow> nat list \<Rightarrow> nat list" where
  "rotate_shuffle g xs = rotate g (rev xs)"

subsection \<open>A small input\<close>

text \<open>
  A header of two lines ending at the marker line, then five atom lines and a line of
  two fields. The coordinates are fractional: every axis spans at most 1.
\<close>

definition demo_lines :: "string list" where
  "demo_lines =
     [''Number of particles = 5'', ''Fe'', ''0.25 0.5 0.75 1'', ''bad line'', ''0 0 0 2'',
      ''1 1 1 7'', ''0.5 0.5 0.5 3'', ''0.125 0 1 3 extra'']"

definition demo_atoms :: "rat atom list" where
  "demo_atoms =
     [\<lparr>atom_x = 1 / 4, atom_y = 1 / 2, atom_z = 3 / 4, grain = ''1'', atom_type = 0\<rparr>,
      \<lparr>atom_x = 0, atom_y = 0, atom_z = 0, grain = ''2'', atom_type = 0\<rparr>,
      \<lparr>atom_x = 1, atom_y = 1, atom_z = 1, grain = ''7'', atom_type = 0\<rparr>,
      \<lparr>atom_x = 1 / 2, atom_y = 1 / 2, atom_z = 1 / 2, grain = ''3'', atom_type = 0\<rparr>,
      \<lparr>atom_x = 1 / 8, atom_y = 0, atom_z = 1, grain = ''3'', atom_type = 0\<rparr>]"

text \<open>The small input after scaling by 198, and after the five type loops.\<close>

definition demo_scaled :: "rat atom list" where
  "demo_scaled =
     [\<lparr>atom_x = 99 / 2, atom_y = 99, atom_z = 297 / 2, grain = ''1'', atom_type = 0\<rparr>,
      \<lparr>atom_x = 0, atom_y = 0, atom_z = 0, grain = ''2'', atom_type = 0\<rparr>,
      \<lparr>atom_x = 198, atom_y = 198, atom_z = 198, grain = ''7'', atom_type = 0\<rparr>,
      \<lparr>atom_x = 99, atom_y = 99, atom_z = 99, grain = ''3'', atom_type = 0\<rparr>,
      \<lparr>atom_x = 99 / 4, atom_y = 0, atom_z = 198, grain = ''3'', atom_type = 0\<rparr>]"

definition demo_final :: "rat atom list" where
  "demo_final =
     [\<lparr>atom_x = 99 / 2, atom_y = 99, atom_z = 297 / 2, grain = ''1'', atom_type = 3\<rparr>,
      \<lparr>atom_x = 0, atom_y = 0, atom_z = 0, grain = ''2'', atom_type = 2\<rparr>,
      \<lparr>atom_x = 198, atom_y = 198, atom_z = 198, grain = ''7'', atom_type = 1\<rparr>,
      \<lparr>atom_x = 99, atom_y = 99, atom_z = 99, grain = ''3'', atom_type = 5\<rparr>,
      \<lparr>atom_x = 99 / 4, atom_y = 0, atom_z = 198, grain = ''3'', atom_type = 4\<rparr>]"

text \<open>
  Three atoms, the one size at which four groups of the rounded fifth do not fit, and
  what the five type loops leave of them along the index list 2, 0, 1.
\<close>

definition three_atoms :: "rat atom list" where
  "three_atoms =
     [\<lparr>atom_x = 1 / 4, atom_y = 1 / 2, atom_z = 3 / 4, grain = ''1'', atom_type = 0\<rparr>,
      \<lparr>atom_x = 0, atom_y = 0, atom_z = 0, grain = ''2'', atom_type = 0\<rparr>,
      \<lparr>atom_x = 1, atom_y = 1, atom_z = 1, grain = ''7'', atom_type = 0\<rparr>]"

definition three_final :: "rat atom list" where
  "three_final =
     [\<lparr>atom_x = 1 / 4, atom_y = 1 / 2, atom_z = 3 / 4, grain = ''1'', atom_type = 2\<rparr>,
      \<lparr>atom_x = 0, atom_y = 0, atom_z = 0, grain = ''2'', atom_type = 3\<rparr>,
      \<lparr>atom_x = 1, atom_y = 1, atom_z = 1, grain = ''7'', atom_type = 1\<rparr>]"

text \<open>Two atoms whose x coordinates are exactly 2 apart.\<close>

definition wide_atoms :: "rat atom list" where
  "wide_atoms =
     [\<lparr>atom_x = 0, atom_y = 0, atom_z = 0, grain = ''1'', atom_type = 0\<rparr>,
      \<lparr>atom_x = 2, atom_y = 1, atom_z = 1, grain = ''1'', atom_type = 0\<rparr>]"


section \<open>Properties of the parts\<close>

subsection \<open>Header split and atom lines\<close>

lemma header_loop_found:
  "header_loop True header_part atom_part lines = (header_part, atom_part @ lines)"
  by (induction lines arbitrary: atom_part) simp_all

lemma header_loop_no_marker:
  "\<forall>l \<in> set lines. \<not> contains ''Fe'' (strip l) \<Longrightarrow>
   header_loop False header_part atom_part lines = (header_part @ lines, atom_part)"
  by (induction lines arbitrary: header_part) simp_all

lemma header_loop_first_marker:
  assumes "\<forall>l \<in> set pre. \<not> contains ''Fe'' (strip l)" and "contains ''Fe'' (strip line)"
  shows "header_loop False header_part atom_part (pre @ line # post)
           = (header_part @ pre @ [line], atom_part @ post)"
  using assms by (induction pre arbitrary: header_part) (simp_all add: header_loop_found)

lemma parse_loop_append:
  "parse_loop ops atoms lines = atoms @ parse_loop ops [] lines"
proof (induction lines arbitrary: atoms)
  case Nil
  show ?case by simp
next
  case (Cons l ls)
  show ?case
  proof (cases "parse_line ops l")
    case None
    then show ?thesis using Cons.IH [of atoms] by simp
  next
    case (Some a)
    then show ?thesis using Cons.IH [of "atoms @ [a]"] Cons.IH [of "[a]"] by simp
  qed
qed

lemma split_scan_leading:
  "split_scan [] (dropWhile isspace s) = split_scan [] s"
  by (induction s) simp_all

lemma split_scan_trailing:
  "\<forall>c \<in> set ws. isspace c \<Longrightarrow> split_scan w (s @ ws) = split_scan w s"
proof (induction s arbitrary: w)
  case Nil
  have "\<And>v. \<forall>c \<in> set ws. isspace c \<Longrightarrow> split_scan v ws = (if v = [] then [] else [rev v])" for ws
    by (induction ws) (auto)
  then show ?case using Nil by simp
next
  case (Cons c s)
  then show ?case by simp
qed

lemma rstrip_decomp:
  "\<exists>ws. (\<forall>c \<in> set ws. isspace c) \<and> t = rev (dropWhile isspace (rev t)) @ ws"
proof -
  have "rev (dropWhile isspace (rev t)) @ rev (takeWhile isspace (rev t))
          = rev (takeWhile isspace (rev t) @ dropWhile isspace (rev t))"
    by (simp only: rev_append)
  also have "\<dots> = t"
    by (simp only: takeWhile_dropWhile_id rev_rev_ident)
  finally have "t = rev (dropWhile isspace (rev t)) @ rev (takeWhile isspace (rev t))"
    by simp
  moreover have "\<forall>c \<in> set (rev (takeWhile isspace (rev t))). isspace c"
    by (auto dest: set_takeWhileD)
  ultimately show ?thesis by blast
qed

lemma split_strip: "split (strip s) = split s"
proof -
  obtain ws where ws: "\<forall>c \<in> set ws. isspace c"
    and eq: "dropWhile isspace s = strip s @ ws"
    using rstrip_decomp [of "dropWhile isspace s"] by (auto simp: strip_def)
  have "split s = split_scan [] (dropWhile isspace s)"
    by (simp add: split_def split_scan_leading)
  also have "\<dots> = split_scan [] (strip s)"
    using ws by (simp add: eq split_scan_trailing)
  finally show ?thesis by (simp add: split_def)
qed

lemma split_Nil [simp]: "split [] = []"
  by (simp add: split_def)

lemma parse_line_eq:
  "parse_line ops line = (if malformed ops line then None else Some (record_of ops line))"
proof (cases "strip line = []")
  case True
  then have "split line = []" using split_strip [of line] by simp
  then show ?thesis using True by (simp add: parse_line_def malformed_def)
next
  case False
  then show ?thesis
    by (auto simp: parse_line_def malformed_def record_of_def split_strip Let_def
        split: option.splits)
qed

lemma parse_atoms_eq:
  "parse_atoms ops atom_part = map (record_of ops) (filter (\<lambda>l. \<not> malformed ops l) atom_part)"
  unfolding parse_atoms_def
proof (induction atom_part)
  case Nil
  show ?case by simp
next
  case (Cons l ls)
  show ?case
    using Cons.IH parse_loop_append [of ops "[record_of ops l]" ls]
    by (simp add: parse_line_eq)
qed

subsection \<open>Group size, ranges, type loops, slices\<close>

lemma py_round_fifths:
  assumes "r < 5"
  shows "py_round (of_int m + of_nat r / 5) = m + (if r < 3 then 0 else 1)"
proof -
  have f: "\<lfloor>of_int m + of_nat r / 5 :: rat\<rfloor> = m"
    using assms by (intro floor_unique) simp_all
  have d: "of_int m + of_nat r / 5 - of_int m = (of_nat r / 5 :: rat)" by simp
  from assms consider "r = 0" | "r = 1" | "r = 2" | "r = 3" | "r = 4" by linarith
  then show ?thesis
    unfolding py_round_def Let_def f d by cases simp_all
qed

lemma quota_eq: "quota n = (n + 2) div 5"
proof -
  define m where "m = n div 5"
  define r where "r = n mod 5"
  have n: "n = 5 * m + r" and r: "r < 5" by (simp_all add: m_def r_def)
  have e: "(2 / 10 * of_nat n :: rat) = of_int (int m) + of_nat r / 5"
    by (simp add: n)
  have "py_round (2 / 10 * of_nat n) = int m + (if r < 3 then 0 else 1)"
    unfolding e by (rule py_round_fifths [OF r])
  moreover have "(n + 2) div 5 = m + (if r < 3 then 0 else 1)"
    unfolding m_def r_def by presburger
  ultimately show ?thesis by (auto simp: quota_def nat_add_distrib)
qed

lemma quota_fits: "n \<noteq> 3 \<Longrightarrow> 4 * quota n \<le> n"
  by (simp add: quota_eq) presburger

lemma quota_3: "quota 3 = 1"
  by (simp add: quota_eq)

lemma py_max_Some: "vs \<noteq> [] \<Longrightarrow> \<exists>v. py_max ops vs = Some v"
  by (cases vs) simp_all

lemma py_min_Some: "vs \<noteq> [] \<Longrightarrow> \<exists>v. py_min ops vs = Some v"
  by (cases vs) simp_all

lemma axis_range_Some: "vs \<noteq> [] \<Longrightarrow> \<exists>v. axis_range ops vs = Some v"
  using py_max_Some [of vs ops] py_min_Some [of vs ops] by (auto simp: axis_range_def)

lemma normalize_eq:
  assumes "atoms \<noteq> []"
  shows "\<exists>xr yr zr. axis_range ops (map atom_x atoms) = Some xr
     \<and> axis_range ops (map atom_y atoms) = Some yr
     \<and> axis_range ops (map atom_z atoms) = Some zr
     \<and> normalize ops atoms
         = Inr (if is_fractional ops xr yr zr then map (scale_atom ops) atoms else atoms)"
proof -
  obtain xr where xr: "axis_range ops (map atom_x atoms) = Some xr"
    using axis_range_Some [of "map atom_x atoms" ops] assms by auto
  obtain yr where yr: "axis_range ops (map atom_y atoms) = Some yr"
    using axis_range_Some [of "map atom_y atoms" ops] assms by auto
  obtain zr where zr: "axis_range ops (map atom_z atoms) = Some zr"
    using axis_range_Some [of "map atom_z atoms" ops] assms by auto
  show ?thesis by (simp add: normalize_def xr yr zr)
qed

lemma set_types_ok:
  assumes "\<forall>i \<in> set idxs. i < length atoms"
  shows "\<exists>atoms'. set_types idxs t atoms = Inr atoms' \<and> length atoms' = length atoms
     \<and> (\<forall>i < length atoms. atoms' ! i
           = (if i \<in> set idxs then (atoms ! i)\<lparr>atom_type := t\<rparr> else atoms ! i))"
  using assms
proof (induction idxs arbitrary: atoms)
  case Nil
  then show ?case by simp
next
  case (Cons idx rest)
  let ?a = "atoms[idx := (atoms ! idx)\<lparr>atom_type := t\<rparr>]"
  have "\<forall>i \<in> set rest. i < length ?a" using Cons.prems by simp
  from Cons.IH [OF this] obtain atoms' where
    r: "set_types rest t ?a = Inr atoms'" and l: "length atoms' = length ?a"
    and v: "\<forall>i < length ?a. atoms' ! i
           = (if i \<in> set rest then (?a ! i)\<lparr>atom_type := t\<rparr> else ?a ! i)"
    by blast
  have "set_types (idx # rest) t atoms = Inr atoms'" using Cons.prems r by simp
  moreover have "length atoms' = length atoms" using l by simp
  moreover have "\<forall>i < length atoms. atoms' ! i
           = (if i \<in> set (idx # rest) then (atoms ! i)\<lparr>atom_type := t\<rparr> else atoms ! i)"
    using v Cons.prems by (auto simp: nth_list_update)
  ultimately show ?case by blast
qed


lemma nth_in_slice:
  assumes "distinct xs" and "j < length xs"
  shows "xs ! j \<in> set (slice a b xs) \<longleftrightarrow> a \<le> j \<and> j < b"
proof -
  have len: "length (slice a b xs) = min (b - a) (length xs - a)"
    by (simp add: slice_def)
  have nth: "slice a b xs ! k = xs ! (a + k)" if "k < length (slice a b xs)" for k
  proof -
    from that have "k < b - a" and "a \<le> length xs" unfolding len by linarith+
    then show ?thesis by (simp add: slice_def)
  qed
  have "xs ! j \<in> set (slice a b xs) \<longleftrightarrow> (\<exists>k < length (slice a b xs). slice a b xs ! k = xs ! j)"
    by (simp add: in_set_conv_nth)
  also have "\<dots> \<longleftrightarrow> (\<exists>k < length (slice a b xs). xs ! (a + k) = xs ! j)"
    using nth by auto
  also have "\<dots> \<longleftrightarrow> (\<exists>k < length (slice a b xs). a + k = j)"
    using assms by (auto simp: len nth_eq_iff_index_eq)
  also have "\<dots> \<longleftrightarrow> a \<le> j \<and> j < b"
  proof
    assume "\<exists>k < length (slice a b xs). a + k = j"
    then show "a \<le> j \<and> j < b" by (auto simp: len)
  next
    assume "a \<le> j \<and> j < b"
    then have "j - a < length (slice a b xs)" and "a + (j - a) = j"
      using assms(2) by (auto simp: len)
    then show "\<exists>k < length (slice a b xs). a + k = j" by blast
  qed
  finally show ?thesis .
qed

lemma nth_in_slice_from:
  assumes "distinct xs" and "j < length xs"
  shows "xs ! j \<in> set (slice_from a xs) \<longleftrightarrow> a \<le> j"
proof -
  have "slice_from a xs = slice a (length xs) xs" by (simp add: slice_def slice_from_def)
  then show ?thesis using nth_in_slice [OF assms, of a "length xs"] assms by simp
qed

lemma slice_in_range: "set (slice a b xs) \<subseteq> set xs"
  by (auto simp: slice_def dest: in_set_takeD in_set_dropD)

lemma slice_from_in_range: "set (slice_from a xs) \<subseteq> set xs"
  by (auto simp: slice_from_def dest: in_set_dropD)

subsection \<open>The five type loops along a permutation\<close>

lemma perm_facts:
  assumes "mset perm = mset [0..<n]"
  shows "distinct perm" and "set perm = {0..<n}" and "length perm = n"
proof -
  show "distinct perm" using assms by (metis distinct_upt mset_eq_imp_distinct_iff)
  show "set perm = {0..<n}" using assms by (metis atLeastLessThan_upt mset_eq_setD)
  show "length perm = n" using assms by (metis length_upt mset_eq_length minus_nat.diff_0)
qed

lemma species_at_cases:
  "species_at q j = 1 \<longleftrightarrow> j < q"
  "species_at q j = 2 \<longleftrightarrow> q \<le> j \<and> j < 2 * q"
  "species_at q j = 3 \<longleftrightarrow> 2 * q \<le> j \<and> j < 3 * q"
  "species_at q j = 4 \<longleftrightarrow> 3 * q \<le> j \<and> j < 4 * q"
  "species_at q j = 5 \<longleftrightarrow> 4 * q \<le> j"
  by (auto simp: species_at_def)

lemma species_at_range: "species_at q j \<in> {1, 2, 3, 4, 5}"
  by (simp add: species_at_def)

lemma assign_species_ok:
  assumes perm: "mset perm = mset [0..<length atoms]"
  shows "\<exists>final. assign_species perm atoms = Inr final \<and> length final = length atoms
     \<and> (\<forall>j < length atoms. final ! (perm ! j)
           = (atoms ! (perm ! j))\<lparr>atom_type := species_at (quota (length atoms)) j\<rparr>)"
proof -
  define n where "n = length atoms"
  define q where "q = quota n"
  note pf = perm_facts [OF perm [folded n_def]]
  have inr: "\<forall>i \<in> set (slice a b perm). i < n" for a b
    using slice_in_range [of a b perm] pf(2) by auto
  have inr5: "\<forall>i \<in> set (slice_from a perm). i < n" for a
    using slice_from_in_range [of a perm] pf(2) by auto
  obtain a1 where a1: "set_types (slice 0 q perm) 1 atoms = Inr a1" "length a1 = n"
    "\<forall>i < n. a1 ! i = (if i \<in> set (slice 0 q perm) then (atoms ! i)\<lparr>atom_type := 1\<rparr> else atoms ! i)"
    using set_types_ok [of "slice 0 q perm" atoms 1] inr [of 0 q] by (auto simp: n_def)
  obtain a2 where a2: "set_types (slice q (q + q) perm) 2 a1 = Inr a2" "length a2 = n"
    "\<forall>i < n. a2 ! i = (if i \<in> set (slice q (q + q) perm) then (a1 ! i)\<lparr>atom_type := 2\<rparr> else a1 ! i)"
    using set_types_ok [of "slice q (q + q) perm" a1 2] inr [of q "q + q"] a1(2) by auto
  obtain a3 where a3: "set_types (slice (q + q) (q + q + q) perm) 3 a2 = Inr a3" "length a3 = n"
    "\<forall>i < n. a3 ! i = (if i \<in> set (slice (q + q) (q + q + q) perm) then (a2 ! i)\<lparr>atom_type := 3\<rparr> else a2 ! i)"
    using set_types_ok [of "slice (q + q) (q + q + q) perm" a2 3] inr [of "q + q" "q + q + q"] a2(2)
    by auto
  obtain a4 where a4: "set_types (slice (q + q + q) (q + q + q + q) perm) 4 a3 = Inr a4"
    "length a4 = n"
    "\<forall>i < n. a4 ! i = (if i \<in> set (slice (q + q + q) (q + q + q + q) perm)
        then (a3 ! i)\<lparr>atom_type := 4\<rparr> else a3 ! i)"
    using set_types_ok [of "slice (q + q + q) (q + q + q + q) perm" a3 4]
      inr [of "q + q + q" "q + q + q + q"] a3(2)
    by auto
  obtain a5 where a5: "set_types (slice_from (q + q + q + q) perm) 5 a4 = Inr a5"
    "length a5 = n"
    "\<forall>i < n. a5 ! i = (if i \<in> set (slice_from (q + q + q + q) perm)
        then (a4 ! i)\<lparr>atom_type := 5\<rparr> else a4 ! i)"
    using set_types_ok [of "slice_from (q + q + q + q) perm" a4 5] inr5 [of "q + q + q + q"] a4(2)
    by auto
  have run: "assign_species perm atoms = Inr a5"
    by (simp add: assign_species_def Let_def n_def [symmetric] q_def [symmetric] a1 a2 a3 a4 a5
        del: One_nat_def)
  have "a5 ! (perm ! j) = (atoms ! (perm ! j))\<lparr>atom_type := species_at q j\<rparr>" if j: "j < n" for j
  proof -
    have jl: "j < length perm" using j pf(3) by simp
    have i: "perm ! j < n" using jl pf(2) nth_mem [OF jl] by auto
    note m = nth_in_slice [OF pf(1) jl] nth_in_slice_from [OF pf(1) jl]
    show ?thesis
      using a1(3) a2(3) a3(3) a4(3) a5(3) i
      by (simp add: m species_at_def)
  qed
  then show ?thesis using run a5(2) by (auto simp: n_def q_def)
qed

lemma assign_species_everywhere:
  assumes perm: "mset perm = mset [0..<length atoms]"
  shows "\<exists>final. assign_species perm atoms = Inr final \<and> length final = length atoms
     \<and> (\<forall>j < length atoms. final ! (perm ! j)
           = (atoms ! (perm ! j))\<lparr>atom_type := species_at (quota (length atoms)) j\<rparr>)
     \<and> (\<forall>i < length atoms. atom_x (final ! i) = atom_x (atoms ! i)
           \<and> atom_y (final ! i) = atom_y (atoms ! i) \<and> atom_z (final ! i) = atom_z (atoms ! i)
           \<and> atom_type (final ! i) \<in> {1, 2, 3, 4, 5})"
proof -
  from assign_species_ok [OF perm] obtain final where
    f: "assign_species perm atoms = Inr final" "length final = length atoms"
    "\<forall>j < length atoms. final ! (perm ! j)
           = (atoms ! (perm ! j))\<lparr>atom_type := species_at (quota (length atoms)) j\<rparr>"
    by blast
  note pf = perm_facts [OF perm]
  have "atom_x (final ! i) = atom_x (atoms ! i)
           \<and> atom_y (final ! i) = atom_y (atoms ! i) \<and> atom_z (final ! i) = atom_z (atoms ! i)
           \<and> atom_type (final ! i) \<in> {1, 2, 3, 4, 5}" if "i < length atoms" for i
  proof -
    from that have "i \<in> set perm" using pf(2) by simp
    then obtain j where j: "j < length perm" "perm ! j = i" by (auto simp: in_set_conv_nth)
    then have "final ! i = (atoms ! i)\<lparr>atom_type := species_at (quota (length atoms)) j\<rparr>"
      using f(3) pf(3) by auto
    then show ?thesis using species_at_range [of "quota (length atoms)" j] by simp
  qed
  then show ?thesis using f by blast
qed

lemma map_via_nth: "map f xs = map (\<lambda>i. f (xs ! i)) [0..<length xs]"
  by (rule nth_equalityI) simp_all

lemma count_filter_mset:
  "length (filter (\<lambda>a. f a = t) xs) = count (mset (map f xs)) t"
  by (induction xs) simp_all

lemma count_interval:
  "length (filter (\<lambda>j. a \<le> j \<and> j < b) [0..<n]) = min b n - min a n"
  by (induction n) auto

lemma count_from:
  "length (filter (\<lambda>j. a \<le> j) [0..<n]) = n - min a n"
  by (induction n) auto

lemma types_along_perm:
  assumes perm: "mset perm = mset [0..<length atoms]"
    and run: "assign_species perm atoms = Inr final"
  shows "mset (map atom_type final) = mset (map (species_at (quota (length atoms))) [0..<length atoms])"
proof -
  define n where "n = length atoms"
  from assign_species_ok [OF perm] run have
    l: "length final = n" and
    v: "\<forall>j < n. final ! (perm ! j) = (atoms ! (perm ! j))\<lparr>atom_type := species_at (quota n) j\<rparr>"
    by (auto simp: n_def)
  note pf = perm_facts [OF perm [folded n_def]]
  let ?g = "\<lambda>i. atom_type (final ! i)"
  have "map atom_type final = map ?g [0..<n]"
    using map_via_nth [of atom_type final] by (simp add: l)
  then have "mset (map atom_type final) = image_mset ?g (mset [0..<n])" by simp
  also have "\<dots> = image_mset ?g (mset perm)" using perm by (simp add: n_def)
  also have "\<dots> = mset (map ?g perm)" by simp
  also have "map ?g perm = map (\<lambda>j. ?g (perm ! j)) [0..<n]"
    using map_via_nth [of ?g perm] by (simp add: pf(3))
  also have "\<dots> = map (species_at (quota n)) [0..<n]"
    using v by simp
  finally show ?thesis by (simp add: n_def)
qed

lemma species_counts:
  assumes perm: "mset perm = mset [0..<length atoms]"
    and run: "assign_species perm atoms = Inr final"
  shows "species_count 1 final = min (quota (length atoms)) (length atoms)"
    and "species_count 2 final
          = min (2 * quota (length atoms)) (length atoms) - min (quota (length atoms)) (length atoms)"
    and "species_count 3 final
          = min (3 * quota (length atoms)) (length atoms)
            - min (2 * quota (length atoms)) (length atoms)"
    and "species_count 4 final
          = min (4 * quota (length atoms)) (length atoms)
            - min (3 * quota (length atoms)) (length atoms)"
    and "species_count 5 final = length atoms - min (4 * quota (length atoms)) (length atoms)"
proof -
  define n where "n = length atoms"
  define q where "q = quota n"
  have c: "species_count t final = length (filter (\<lambda>j. species_at q j = t) [0..<n])" for t
    unfolding species_count_def count_filter_mset types_along_perm [OF perm run]
    by (simp add: count_filter_mset [symmetric] n_def q_def)
  show "species_count 1 final = min (quota (length atoms)) (length atoms)"
    using count_interval [of 0 q n] by (simp add: c species_at_cases n_def q_def del: One_nat_def)
  show "species_count 2 final
          = min (2 * quota (length atoms)) (length atoms) - min (quota (length atoms)) (length atoms)"
    using count_interval [of q "2 * q" n] by (simp add: c species_at_cases n_def q_def)
  show "species_count 3 final
          = min (3 * quota (length atoms)) (length atoms)
            - min (2 * quota (length atoms)) (length atoms)"
    using count_interval [of "2 * q" "3 * q" n] by (simp add: c species_at_cases n_def q_def)
  show "species_count 4 final
          = min (4 * quota (length atoms)) (length atoms)
            - min (3 * quota (length atoms)) (length atoms)"
    using count_interval [of "3 * q" "4 * q" n] by (simp add: c species_at_cases n_def q_def)
  show "species_count 5 final = length atoms - min (4 * quota (length atoms)) (length atoms)"
    using count_from [of "4 * q" n] by (simp add: c species_at_cases n_def q_def)
qed

lemma slices_cover:
  "slice 0 q xs @ slice q (q + q) xs @ slice (q + q) (q + q + q) xs
     @ slice (q + q + q) (q + q + q + q) xs @ slice_from (q + q + q + q) xs = xs"
proof -
  have "take q ys @ drop q ys = ys" for ys :: "'a list" by simp
  have d: "drop (a + q) xs = drop q (drop a xs)" for a by (simp add: add.commute)
  show ?thesis
    by (simp add: slice_def slice_from_def d del: drop_drop)
qed

subsection \<open>The run as a whole\<close>

lemma normalize_length:
  "normalize ops atoms = Inr atoms1 \<Longrightarrow> length atoms1 = length atoms"
  by (auto simp: normalize_def split: option.splits if_splits)

lemma python_part_empty:
  assumes "parse_atoms ops (snd (split_header lines)) = []"
  shows "python_part ops shuffle g lines fs = (Some (SystemExit no_atoms_message), fs)"
  using assms by (simp add: python_part_def split_beta)

lemma python_part_run:
  assumes parse: "parse_atoms ops (snd (split_header lines)) = atoms"
    and ne: "atoms \<noteq> []"
    and perm: "mset (shuffle g [0..<length atoms]) = mset [0..<length atoms]"
  shows "\<exists>atoms1 final. normalize ops atoms = Inr atoms1 \<and> length atoms1 = length atoms
     \<and> assign_species (shuffle g [0..<length atoms]) atoms1 = Inr final
     \<and> length final = length atoms
     \<and> python_part ops shuffle g lines fs = (None, fs(output_file \<mapsto> write_data ops final))"
proof -
  from normalize_eq [OF ne, of ops] obtain atoms1 where
    n: "normalize ops atoms = Inr atoms1" by auto
  have ln: "length atoms1 = length atoms" using normalize_length [OF n] .
  from assign_species_ok [of "shuffle g [0..<length atoms]" atoms1] perm ln obtain final where
    f: "assign_species (shuffle g [0..<length atoms]) atoms1 = Inr final"
    "length final = length atoms"
    by auto
  have "python_part ops shuffle g lines fs = (None, fs(output_file \<mapsto> write_data ops final))"
    using parse ne by (simp add: python_part_def split_beta n f)
  then show ?thesis using n ln f by blast
qed

subsection \<open>Running the small input\<close>

lemma demo_split:
  "split_header demo_lines
     = ([''Number of particles = 5'', ''Fe''],
        [''0.25 0.5 0.75 1'', ''bad line'', ''0 0 0 2'', ''1 1 1 7'', ''0.5 0.5 0.5 3'',
         ''0.125 0 1 3 extra''])"
  by (simp add: demo_lines_def split_header_def strip_def isspace_def)

lemmas decimal_eval = decimal_of_def unsigned_decimal_def is_digit_def digits_val_def

lemma demo_fields:
  "split ''0.25 0.5 0.75 1'' = [''0.25'', ''0.5'', ''0.75'', ''1'']"
  "split ''bad line'' = [''bad'', ''line'']"
  "split ''0 0 0 2'' = [''0'', ''0'', ''0'', ''2'']"
  "split ''1 1 1 7'' = [''1'', ''1'', ''1'', ''7'']"
  "split ''0.5 0.5 0.5 3'' = [''0.5'', ''0.5'', ''0.5'', ''3'']"
  "split ''0.125 0 1 3 extra'' = [''0.125'', ''0'', ''1'', ''3'', ''extra'']"
  by (simp_all add: split_def isspace_def)

lemma demo_floats:
  "decimal_of ''0.25'' = Some (1 / 4)" "decimal_of ''0.5'' = Some (1 / 2)"
  "decimal_of ''0.75'' = Some (3 / 4)" "decimal_of ''0'' = Some 0" "decimal_of ''1'' = Some 1"
  "decimal_of ''0.125'' = Some (1 / 8)" "decimal_of ''bad'' = None"
  by (simp_all add: decimal_eval)

lemma demo_malformed:
  "malformed exact_ops ''bad line''"
  "\<not> malformed exact_ops ''0.25 0.5 0.75 1''"
  "\<not> malformed exact_ops ''0 0 0 2''"
  "\<not> malformed exact_ops ''1 1 1 7''"
  "\<not> malformed exact_ops ''0.5 0.5 0.5 3''"
  "\<not> malformed exact_ops ''0.125 0 1 3 extra''"
  by (auto simp: malformed_def demo_fields demo_floats exact_ops_def)

lemma demo_records:
  "record_of exact_ops ''0.125 0 1 3 extra''
     = \<lparr>atom_x = 1 / 8, atom_y = 0, atom_z = 1, grain = ''3'', atom_type = 0\<rparr>"
  "record_of exact_ops ''0.25 0.5 0.75 1''
     = \<lparr>atom_x = 1 / 4, atom_y = 1 / 2, atom_z = 3 / 4, grain = ''1'', atom_type = 0\<rparr>"
  by (simp_all add: record_of_def demo_fields demo_floats exact_ops_def)

lemma demo_filter:
  "filter (\<lambda>l. \<not> malformed exact_ops l) (snd (split_header demo_lines))
    = [''0.25 0.5 0.75 1'', ''0 0 0 2'', ''1 1 1 7'', ''0.5 0.5 0.5 3'', ''0.125 0 1 3 extra'']"
  by (simp add: demo_split demo_malformed)

lemma demo_parse: "parse_atoms exact_ops (snd (split_header demo_lines)) = demo_atoms"
  unfolding parse_atoms_eq demo_filter
  by (simp add: demo_atoms_def record_of_def demo_fields demo_floats exact_ops_def)

lemma rotate_shuffle_perm: "mset (rotate_shuffle g xs) = mset xs"
proof -
  have "mset (rotate g ys) = mset ys" for ys :: "nat list"
  proof -
    have "mset (rotate g ys) = mset (drop (g mod length ys) ys) + mset (take (g mod length ys) ys)"
      by (simp add: rotate_drop_take)
    also have "\<dots> = mset (take (g mod length ys) ys @ drop (g mod length ys) ys)"
      by (simp only: mset_append add.commute)
    finally show ?thesis by simp
  qed
  then show ?thesis by (simp add: rotate_shuffle_def)
qed

lemma demo_shuffle: "rotate_shuffle 2 [0..<5] = [2, 1, 0, 4, 3]"
  by (simp add: rotate_shuffle_def upt_rec rotate_def numeral_eq_Suc rotate1_def)

lemma demo_ranges:
  "axis_range exact_ops (map atom_x demo_atoms) = Some 1"
  "axis_range exact_ops (map atom_y demo_atoms) = Some 1"
  "axis_range exact_ops (map atom_z demo_atoms) = Some 1"
  "flt exact_ops 1 (fnum exact_ops 2)"
  by (simp_all add: axis_range_def exact_ops_def demo_atoms_def)


lemma demo_quota: "quota 5 = 1" "quota 3 = 1"
  by (simp_all add: quota_eq)

lemma demo_assign:
  "assign_species [2, 1, 0, 4, 3] demo_scaled
     = Inr [\<lparr>atom_x = 99 / 2, atom_y = 99, atom_z = 297 / 2, grain = ''1'', atom_type = 3\<rparr>,
      \<lparr>atom_x = 0, atom_y = 0, atom_z = 0, grain = ''2'', atom_type = 2\<rparr>,
      \<lparr>atom_x = 198, atom_y = 198, atom_z = 198, grain = ''7'', atom_type = 1\<rparr>,
      \<lparr>atom_x = 99, atom_y = 99, atom_z = 99, grain = ''3'', atom_type = 5\<rparr>,
      \<lparr>atom_x = 99 / 4, atom_y = 0, atom_z = 198, grain = ''3'', atom_type = 4\<rparr>]"
proof -
  have l: "length demo_scaled = 5" by (simp add: demo_scaled_def)
  show ?thesis
    unfolding assign_species_def Let_def l demo_quota
    by (simp add: demo_scaled_def slice_def slice_from_def)
qed










lemma five_counts_sum:
  assumes "\<forall>a \<in> set final. atom_type a \<in> {1, 2, 3, 4, 5}"
  shows "species_count 1 final + species_count 2 final + species_count 3 final
     + species_count 4 final + species_count 5 final = length final"
  using assms by (induction final) (auto simp: species_count_def)

lemma demo_lengths:
  "length demo_atoms = 5" "length demo_scaled = 5" "length demo_final = 5"
  "length three_atoms = 3" "length wide_atoms = 2"
  by (simp_all add: demo_atoms_def demo_scaled_def demo_final_def three_atoms_def wide_atoms_def)

lemma demo_assign_final: "assign_species [2, 1, 0, 4, 3] demo_scaled = Inr demo_final"
  unfolding demo_final_def by (rule demo_assign)

lemma demo_perms:
  "mset [2, 1, 0, 4, 3] = mset [0..<length demo_scaled]"
  "mset [2, 0, 1] = mset [0..<length three_atoms]"
proof -
  have "[0..<5] = [0, Suc 0, 2, 3, 4]" "[0..<3] = [0, Suc 0, 2]"
    by (simp_all add: upt_rec)
  then show "mset [2, 1, 0, 4, 3] = mset [0..<length demo_scaled]"
    and "mset [2, 0, 1] = mset [0..<length three_atoms]"
    by (simp_all add: demo_lengths)
qed

lemma three_assign: "assign_species [2, 0, 1] three_atoms = Inr three_final"
  unfolding assign_species_def Let_def demo_lengths demo_quota
  by (simp add: three_atoms_def three_final_def slice_def slice_from_def)



lemma demo_nonempty: "demo_atoms \<noteq> []" "wide_atoms \<noteq> []"
  by (simp_all add: demo_atoms_def wide_atoms_def)

lemma demo_scale: "map (scale_atom exact_ops) demo_atoms = demo_scaled"
  by (simp add: demo_atoms_def demo_scaled_def scale_atom_def scale_factor_def exact_ops_def)

lemma lone_marker_split: "split_header [''Fe'', ''bad line''] = ([''Fe''], [''bad line''])"
  by (simp add: split_header_def strip_def isspace_def)

lemma lone_marker_parse: "parse_atoms exact_ops (snd (split_header [''Fe'', ''bad line''])) = []"
  by (simp add: lone_marker_split parse_atoms_eq demo_malformed)


section \<open>The claims\<close>

subsection \<open>C1: group sizes of the species assigner\<close>

text \<open>
  C1 says that for every atom set of size N > 0 each of the species 1 to 4 gets exactly
  round(0.2 N) atoms. The slices that carry the four groups are Python slices, which
  clip at the end of the list. With three atoms the group size is round(0.6) = 1, the
  fourth slice starts at position 3 of a list of length 3 and is empty: species 4 gets
  no atom, not one.
\<close>

theorem three_atoms_fourth_group_empty:
  "mset [2, 0, 1] = mset [0..<length three_atoms]
   \<and> assign_species [2, 0, 1] three_atoms = Inr three_final
   \<and> quota (length three_atoms) = 1
   \<and> species_count 4 three_final = 0
   \<and> species_count 4 three_final \<noteq> quota (length three_atoms)"
proof -
  have q: "quota (length three_atoms) = 1"
    unfolding demo_lengths by (rule demo_quota)
  have c: "species_count 4 three_final = 0"
    by (simp add: species_count_def three_final_def)
  have "species_count 4 three_final \<noteq> quota (length three_atoms)"
    unfolding q c by simp
  with demo_perms(2) three_assign q c show ?thesis by (intro conjI)
qed

text \<open>
  C1 as amended: the atom whose index stands at position \<open>j\<close> of the permutation gets
  species 1, 2, 3 or 4 when \<open>j\<close> lies in the first, second, third or fourth block of
  round(0.2 N) positions, and species 5 at every later position. For every N other than
  3 the four blocks fit, so species 1 to 4 get exactly round(0.2 N) atoms each and
  species 5 the remaining N - 4 round(0.2 N). For N = 3 species 1, 2 and 3 get one atom
  each and species 4 and 5 none.
\<close>

theorem species_by_position:
  assumes perm: "mset perm = mset [0..<length atoms]"
  shows "\<exists>final. assign_species perm atoms = Inr final \<and> length final = length atoms
     \<and> (\<forall>j < length atoms.
           atom_type (final ! (perm ! j)) = species_at (quota (length atoms)) j)
     \<and> (length atoms \<noteq> 3 \<longrightarrow>
           species_count 1 final = quota (length atoms)
         \<and> species_count 2 final = quota (length atoms)
         \<and> species_count 3 final = quota (length atoms)
         \<and> species_count 4 final = quota (length atoms)
         \<and> species_count 5 final = length atoms - 4 * quota (length atoms))
     \<and> (length atoms = 3 \<longrightarrow>
           species_count 1 final = 1 \<and> species_count 2 final = 1 \<and> species_count 3 final = 1
         \<and> species_count 4 final = 0 \<and> species_count 5 final = 0)"
proof -
  from assign_species_ok [OF perm] obtain final where
    f: "assign_species perm atoms = Inr final" "length final = length atoms"
    "\<forall>j < length atoms. final ! (perm ! j)
           = (atoms ! (perm ! j))\<lparr>atom_type := species_at (quota (length atoms)) j\<rparr>"
    by blast
  note c = species_counts [OF perm f(1)]
  have pos: "\<forall>j < length atoms.
           atom_type (final ! (perm ! j)) = species_at (quota (length atoms)) j"
    using f(3) by simp
  have big: "species_count 1 final = quota (length atoms)
         \<and> species_count 2 final = quota (length atoms)
         \<and> species_count 3 final = quota (length atoms)
         \<and> species_count 4 final = quota (length atoms)
         \<and> species_count 5 final = length atoms - 4 * quota (length atoms)"
    if "length atoms \<noteq> 3"
    using quota_fits [OF that] unfolding c by (simp add: min_def)
  have small: "species_count 1 final = 1 \<and> species_count 2 final = 1 \<and> species_count 3 final = 1
         \<and> species_count 4 final = 0 \<and> species_count 5 final = 0"
    if "length atoms = 3"
    unfolding c that quota_3 by simp
  show ?thesis using f(1,2) pos big small by blast
qed

theorem species_by_position_witness:
  "mset [2, 1, 0, 4, 3] = mset [0..<length demo_scaled] \<and> length demo_scaled \<noteq> 3
   \<and> assign_species [2, 1, 0, 4, 3] demo_scaled = Inr demo_final
   \<and> (0::nat) < length demo_scaled
   \<and> atom_type (demo_final ! ([2, 1, 0, 4, 3] ! 0)) = species_at (quota (length demo_scaled)) 0
   \<and> species_count 1 demo_final = quota (length demo_scaled)
   \<and> species_count 4 demo_final = quota (length demo_scaled)
   \<and> species_count 5 demo_final = length demo_scaled - 4 * quota (length demo_scaled)
   \<and> quota (length demo_scaled) = 1
   \<and> mset [2, 0, 1] = mset [0..<length three_atoms] \<and> length three_atoms = 3
   \<and> assign_species [2, 0, 1] three_atoms = Inr three_final
   \<and> species_count 1 three_final = 1 \<and> species_count 2 three_final = 1
   \<and> species_count 3 three_final = 1 \<and> species_count 4 three_final = 0
   \<and> species_count 5 three_final = 0"
proof -
  have l5: "length demo_scaled \<noteq> 3" "0 < length demo_scaled" and l3: "length three_atoms = 3"
    by (simp_all add: demo_lengths)
  have q: "quota (length demo_scaled) = 1"
    unfolding demo_lengths by (rule demo_quota)
  from species_by_position [OF demo_perms(1)] obtain final where
    "assign_species [2, 1, 0, 4, 3] demo_scaled = Inr final"
    and v: "\<forall>j < length demo_scaled.
      atom_type (final ! ([2, 1, 0, 4, 3] ! j)) = species_at (quota (length demo_scaled)) j"
      "length demo_scaled \<noteq> 3 \<longrightarrow>
           species_count 1 final = quota (length demo_scaled)
         \<and> species_count 2 final = quota (length demo_scaled)
         \<and> species_count 3 final = quota (length demo_scaled)
         \<and> species_count 4 final = quota (length demo_scaled)
         \<and> species_count 5 final = length demo_scaled - 4 * quota (length demo_scaled)"
    by blast
  then have f5: "final = demo_final" unfolding demo_assign_final by simp
  from species_by_position [OF demo_perms(2)] obtain final3 where
    "assign_species [2, 0, 1] three_atoms = Inr final3"
    and v3: "length three_atoms = 3 \<longrightarrow>
           species_count 1 final3 = 1 \<and> species_count 2 final3 = 1 \<and> species_count 3 final3 = 1
         \<and> species_count 4 final3 = 0 \<and> species_count 5 final3 = 0"
    by blast
  then have f3: "final3 = three_final" unfolding three_assign by simp
  show ?thesis
    using demo_perms l5 l3 demo_assign_final three_assign q v [unfolded f5] v3 [unfolded f3]
    by blast
qed

subsection \<open>C2: one species per atom\<close>

text \<open>
  C2: after the species assigner every atom has exactly one species type in 1..5: no
  atom keeps the initial value 0, every atom index is visited by exactly one of the
  five loops and exactly once, and the five per-species counts add up to N. The index
  list is any permutation of 0..N-1, which is what the shuffle of \<open>range(N)\<close> leaves.
\<close>

theorem every_atom_one_species:
  assumes perm: "mset perm = mset [0..<length atoms]"
  shows "\<exists>final. assign_species perm atoms = Inr final \<and> length final = length atoms
     \<and> (\<forall>i < length atoms. atom_type (final ! i) \<in> {1, 2, 3, 4, 5})
     \<and> (\<forall>i < length atoms.
           count_list
             (slice 0 (quota (length atoms)) perm
              @ slice (quota (length atoms)) (2 * quota (length atoms)) perm
              @ slice (2 * quota (length atoms)) (3 * quota (length atoms)) perm
              @ slice (3 * quota (length atoms)) (4 * quota (length atoms)) perm
              @ slice_from (4 * quota (length atoms)) perm) i = 1)
     \<and> species_count 1 final + species_count 2 final + species_count 3 final
         + species_count 4 final + species_count 5 final = length atoms"
proof -
  from assign_species_everywhere [OF perm] obtain final where
    f: "assign_species perm atoms = Inr final" "length final = length atoms"
    and t: "\<forall>i < length atoms. atom_type (final ! i) \<in> {1, 2, 3, 4, 5}"
    by blast
  note pf = perm_facts [OF perm]
  define q where "q = quota (length atoms)"
  have cover: "slice 0 q perm @ slice q (2 * q) perm @ slice (2 * q) (3 * q) perm
      @ slice (3 * q) (4 * q) perm @ slice_from (4 * q) perm = perm"
    using slices_cover [of q perm] by (simp add: numeral_eq_Suc algebra_simps)
  have once: "count_list perm i = 1" if "i < length atoms" for i
    using that pf(1,2) by (simp add: distinct_count_atmost_1 count_mset [symmetric])
  have "\<forall>a \<in> set final. atom_type a \<in> {1, 2, 3, 4, 5}"
    using t f(2) by (auto simp: in_set_conv_nth)
  from five_counts_sum [OF this] show ?thesis
    using f t once unfolding cover [unfolded q_def] by auto
qed

theorem every_atom_one_species_witness:
  "mset [2, 1, 0, 4, 3] = mset [0..<length demo_scaled]
   \<and> assign_species [2, 1, 0, 4, 3] demo_scaled = Inr demo_final
   \<and> (0::nat) < length demo_scaled \<and> atom_type (demo_final ! 0) \<in> {1, 2, 3, 4, 5}
   \<and> species_count 1 demo_final + species_count 2 demo_final + species_count 3 demo_final
       + species_count 4 demo_final + species_count 5 demo_final = length demo_scaled"
proof -
  have l5: "0 < length demo_scaled" by (simp add: demo_lengths)
  from every_atom_one_species [OF demo_perms(1)] obtain final where
    "assign_species [2, 1, 0, 4, 3] demo_scaled = Inr final"
    and v: "\<forall>i < length demo_scaled. atom_type (final ! i) \<in> {1, 2, 3, 4, 5}"
      "species_count 1 final + species_count 2 final + species_count 3 final
         + species_count 4 final + species_count 5 final = length demo_scaled"
    by blast
  then have f5: "final = demo_final" unfolding demo_assign_final by simp
  show ?thesis
    using demo_perms(1) demo_assign_final l5 v [unfolded f5] by blast
qed

subsection \<open>C3: when the coordinates are scaled\<close>



subsection \<open>C4: scaling by 198, once\<close>

text \<open>
  C4: when the three ranges of the parsed atoms are all less than 2, the run writes the
  data file from atoms each of whose coordinates is the parsed coordinate times 198.0:
  one multiplication per coordinate, by the float product of the carrier.
\<close>

theorem fractional_scaled_once:
  assumes parse: "parse_atoms ops (snd (split_header lines)) = atoms"
    and ne: "atoms \<noteq> []"
    and perm: "mset (shuffle g [0..<length atoms]) = mset [0..<length atoms]"
    and xr: "axis_range ops (map atom_x atoms) = Some x_range" "flt ops x_range (fnum ops 2)"
    and yr: "axis_range ops (map atom_y atoms) = Some y_range" "flt ops y_range (fnum ops 2)"
    and zr: "axis_range ops (map atom_z atoms) = Some z_range" "flt ops z_range (fnum ops 2)"
  shows "\<exists>final. python_part ops shuffle g lines fs
         = (None, fs(output_file \<mapsto> write_data ops final))
     \<and> length final = length atoms
     \<and> (\<forall>i < length atoms.
           atom_x (final ! i) = fmul ops (atom_x (atoms ! i)) (fnum ops 198)
         \<and> atom_y (final ! i) = fmul ops (atom_y (atoms ! i)) (fnum ops 198)
         \<and> atom_z (final ! i) = fmul ops (atom_z (atoms ! i)) (fnum ops 198))"
proof -
  from python_part_run [where shuffle = shuffle and g = g and fs = fs, OF parse ne perm] obtain atoms1 final where
    n: "normalize ops atoms = Inr atoms1" and ln: "length atoms1 = length atoms"
    and a: "assign_species (shuffle g [0..<length atoms]) atoms1 = Inr final"
    and r: "python_part ops shuffle g lines fs = (None, fs(output_file \<mapsto> write_data ops final))"
    by blast
  have s: "atoms1 = map (scale_atom ops) atoms"
    using n by (simp add: normalize_def xr yr zr is_fractional_def)
  from assign_species_everywhere [of "shuffle g [0..<length atoms]" atoms1] perm ln a have
    lf: "length final = length atoms" and
    c: "\<forall>i < length atoms. atom_x (final ! i) = atom_x (atoms1 ! i)
           \<and> atom_y (final ! i) = atom_y (atoms1 ! i) \<and> atom_z (final ! i) = atom_z (atoms1 ! i)"
    by auto
  have "\<forall>i < length atoms.
           atom_x (final ! i) = fmul ops (atom_x (atoms ! i)) (fnum ops 198)
         \<and> atom_y (final ! i) = fmul ops (atom_y (atoms ! i)) (fnum ops 198)
         \<and> atom_z (final ! i) = fmul ops (atom_z (atoms ! i)) (fnum ops 198)"
    using c by (simp add: s scale_atom_def scale_factor_def)
  then show ?thesis using r lf by blast
qed

theorem fractional_scaled_once_witness:
  "parse_atoms exact_ops (snd (split_header demo_lines)) = demo_atoms \<and> demo_atoms \<noteq> []
   \<and> mset (rotate_shuffle 2 [0..<length demo_atoms]) = mset [0..<length demo_atoms]
   \<and> axis_range exact_ops (map atom_x demo_atoms) = Some 1 \<and> flt exact_ops 1 (fnum exact_ops 2)
   \<and> axis_range exact_ops (map atom_y demo_atoms) = Some 1
   \<and> axis_range exact_ops (map atom_z demo_atoms) = Some 1
   \<and> (\<exists>final. python_part exact_ops rotate_shuffle 2 demo_lines Map.empty
         = (None, [output_file \<mapsto> write_data exact_ops final])
       \<and> length final = length demo_atoms \<and> (0::nat) < length demo_atoms
       \<and> atom_x (final ! 0) = fmul exact_ops (atom_x (demo_atoms ! 0)) (fnum exact_ops 198)
       \<and> atom_y (final ! 0) = fmul exact_ops (atom_y (demo_atoms ! 0)) (fnum exact_ops 198)
       \<and> atom_z (final ! 0) = fmul exact_ops (atom_z (demo_atoms ! 0)) (fnum exact_ops 198))"
proof -
  have l: "(0::nat) < length demo_atoms" by (simp add: demo_lengths)
  from fractional_scaled_once [where shuffle = rotate_shuffle and g = 2 and fs = Map.empty,
      OF demo_parse demo_nonempty(1) rotate_shuffle_perm demo_ranges(1) demo_ranges(4)
        demo_ranges(2) demo_ranges(4) demo_ranges(3) demo_ranges(4)]
  have "\<exists>final. python_part exact_ops rotate_shuffle 2 demo_lines Map.empty
         = (None, [output_file \<mapsto> write_data exact_ops final])
       \<and> length final = length demo_atoms \<and> (0::nat) < length demo_atoms
       \<and> atom_x (final ! 0) = fmul exact_ops (atom_x (demo_atoms ! 0)) (fnum exact_ops 198)
       \<and> atom_y (final ! 0) = fmul exact_ops (atom_y (demo_atoms ! 0)) (fnum exact_ops 198)
       \<and> atom_z (final ! 0) = fmul exact_ops (atom_z (demo_atoms ! 0)) (fnum exact_ops 198)"
    using l by blast
  with demo_parse demo_nonempty(1) rotate_shuffle_perm [of 2 "[0..<length demo_atoms]"]
    demo_ranges
  show ?thesis by (intro conjI)
qed

subsection \<open>C5: layout of the data file\<close>



subsection \<open>C6: malformed atom lines\<close>

text \<open>
  C6: the parser returns a plain list, so it cannot raise. The list is exactly the
  records of the lines that are not malformed, in the order of the lines; a malformed
  line (fewer than four whitespace-separated fields, or one of the first three not a
  float) changes nothing in the result.
\<close>

theorem malformed_lines_skipped:
  "parse_atoms ops atom_part
     = map (record_of ops) (filter (\<lambda>l. \<not> malformed ops l) atom_part)
   \<and> (malformed ops line \<longrightarrow>
        parse_atoms ops (pre @ line # post) = parse_atoms ops (pre @ post))"
  by (simp add: parse_atoms_eq)

theorem malformed_lines_skipped_witness:
  "malformed exact_ops ''bad line''
   \<and> parse_atoms exact_ops ([''0.25 0.5 0.75 1''] @ ''bad line'' # [''0 0 0 2''])
       = parse_atoms exact_ops ([''0.25 0.5 0.75 1''] @ [''0 0 0 2''])
   \<and> parse_atoms exact_ops (snd (split_header demo_lines))
       = map (record_of exact_ops)
           (filter (\<lambda>l. \<not> malformed exact_ops l) (snd (split_header demo_lines)))"
  using demo_malformed(1)
    malformed_lines_skipped [of exact_ops "[''0.25 0.5 0.75 1'']" "''bad line''"
      "[''0.25 0.5 0.75 1'']" "[''0 0 0 2'']"]
    malformed_lines_skipped [of exact_ops "snd (split_header demo_lines)" "''bad line''" "[]" "[]"]
  by blast

subsection \<open>C7: no atoms, no output\<close>

text \<open>
  C7: when no atom record is parsed the run ends by \<open>sys.exit\<close> with the message
  \<open>[ERROR] No atoms parsed. Exiting.\<close>, which gives exit status 1, and the files are
  what they were before the run: the output file is not written.
\<close>

theorem zero_atoms_abort:
  assumes "parse_atoms ops (snd (split_header lines)) = []"
  shows "python_part ops shuffle g lines fs = (Some (SystemExit no_atoms_message), fs)
     \<and> exit_status (fst (python_part ops shuffle g lines fs)) = 1
     \<and> no_atoms_message = ''[ERROR] No atoms parsed. Exiting.''"
  using python_part_empty [OF assms, of shuffle g fs] by (simp add: no_atoms_message_def)

theorem zero_atoms_abort_witness:
  "parse_atoms exact_ops (snd (split_header [''Fe'', ''bad line''])) = []
   \<and> python_part exact_ops rotate_shuffle 0 [''Fe'', ''bad line''] Map.empty
       = (Some (SystemExit no_atoms_message), Map.empty)
   \<and> exit_status
         (fst (python_part exact_ops rotate_shuffle 0 [''Fe'', ''bad line''] Map.empty)) = 1"
  using lone_marker_parse
    zero_atoms_abort [OF lone_marker_parse, of rotate_shuffle 0 Map.empty]
  by blast

subsection \<open>C8: header and atom body\<close>

text \<open>
  C8: the header is every line up to and including the first line that contains
  \<open>Fe\<close>; every line after it is atom body, whether or not it contains \<open>Fe\<close>.
\<close>

theorem header_split_at_first_marker:
  assumes "\<forall>l \<in> set pre. \<not> contains ''Fe'' (strip l)" and "contains ''Fe'' (strip line)"
  shows "split_header (pre @ line # post) = (pre @ [line], post)"
  using header_loop_first_marker [OF assms, of "[]" "[]" post] by (simp add: split_header_def)

theorem header_split_at_first_marker_witness:
  "\<not> contains ''Fe'' (strip ''title '') \<and> contains ''Fe'' (strip ''Fe'')
   \<and> split_header ([''title ''] @ ''Fe'' # [''0 0 0 1'', ''Fe 1 2 3'', ''1 1 1 2''])
       = ([''title ''] @ [''Fe''], [''0 0 0 1'', ''Fe 1 2 3'', ''1 1 1 2''])"
proof -
  have a: "\<not> contains ''Fe'' (strip ''title '')"
    by (simp add: strip_def isspace_def)
  then have a': "\<forall>l \<in> set [''title '']. \<not> contains ''Fe'' (strip l)"
    by simp
  have b: "contains ''Fe'' (strip ''Fe'')"
    by (simp add: strip_def isspace_def)
  from a b header_split_at_first_marker [OF a' b, of "[''0 0 0 1'', ''Fe 1 2 3'', ''1 1 1 2'']"]
  show ?thesis by (intro conjI)
qed

subsection \<open>C9: a fixed generator state\<close>



subsection \<open>C10: no marker line\<close>

text \<open>
  C10: when no line contains \<open>Fe\<close> in its stripped text, every line goes to the header,
  the atom body is empty, no atom is parsed, and the run ends by \<open>sys.exit\<close> with
  status 1 and the files unchanged.
\<close>

theorem no_marker_aborts:
  assumes "\<forall>l \<in> set lines. \<not> contains ''Fe'' (strip l)"
  shows "split_header lines = (lines, [])
     \<and> parse_atoms ops (snd (split_header lines)) = []
     \<and> python_part ops shuffle g lines fs = (Some (SystemExit no_atoms_message), fs)
     \<and> exit_status (fst (python_part ops shuffle g lines fs)) = 1"
proof -
  have s: "split_header lines = (lines, [])"
    using header_loop_no_marker [OF assms, of "[]" "[]"] by (simp add: split_header_def)
  then have p: "parse_atoms ops (snd (split_header lines)) = []"
    by (simp add: parse_atoms_def)
  show ?thesis using s p python_part_empty [OF p, of shuffle g fs] by simp
qed

theorem no_marker_aborts_witness:
  "\<not> contains ''Fe'' (strip ''no marker'') \<and> \<not> contains ''Fe'' (strip ''0 0 0 1'')
   \<and> split_header [''no marker'', ''0 0 0 1''] = ([''no marker'', ''0 0 0 1''], [])
   \<and> parse_atoms exact_ops (snd (split_header [''no marker'', ''0 0 0 1''])) = []
   \<and> python_part exact_ops rotate_shuffle 0 [''no marker'', ''0 0 0 1''] Map.empty
       = (Some (SystemExit no_atoms_message), Map.empty)
   \<and> exit_status
         (fst (python_part exact_ops rotate_shuffle 0 [''no marker'', ''0 0 0 1''] Map.empty)) = 1"
proof -
  have a: "\<not> contains ''Fe'' (strip ''no marker'')" "\<not> contains ''Fe'' (strip ''0 0 0 1'')"
    by (simp_all add: strip_def isspace_def)
  then have h: "\<forall>l \<in> set [''no marker'', ''0 0 0 1'']. \<not> contains ''Fe'' (strip l)"
    by simp
  from a no_marker_aborts [OF h, of exact_ops rotate_shuffle 0 Map.empty]
  show ?thesis by blast
qed

end
